theory Spec2Isabelle
  imports Main "HOL-Library.AList"
begin

section \<open>The room relay of server.js\<close>

text \<open>
  The server keeps one registry, \<^verbatim>\<open>gameRooms\<close>, a JavaScript \<^verbatim>\<open>Map\<close> from room code to
  room object, and reacts to six socket events. Each handler runs to completion, so a
  handler is a function from the state before to the state after and the list of
  emissions it makes, in order.

  A JavaScript \<^verbatim>\<open>Map\<close> iterates in insertion order, \<^verbatim>\<open>set\<close> on a present key keeps the
  key's place and \<^verbatim>\<open>delete\<close> drops the entry: the registry is an association list,
  read with \<open>map_of\<close>, written with \<open>AList.update\<close>.
\<close>

subsection \<open>Data\<close>

type_synonym conn = string  \<comment> \<open>\<^verbatim>\<open>socket.id\<close>\<close>

record player =
  pid :: conn          \<comment> \<open>field \<^verbatim>\<open>id\<close>\<close>
  name :: string
  ready :: bool

text \<open>Opaque payloads (game state, action, data) have type \<open>'v\<close>; \<open>None\<close> is \<^verbatim>\<open>null\<close>.\<close>

record 'v room =
  code :: string
  players :: "player list"
  gameState :: "'v option"
  started :: bool

text \<open>
  \<open>members\<close> is the transport's table of broadcast groups: \<open>members s k\<close> is the set of
  connections that are in the socket.io room \<open>k\<close>. \<^verbatim>\<open>socket.join(k)\<close> adds the socket to
  it; the transport takes a socket out of every group before it fires \<^verbatim>\<open>disconnect\<close>.
  The transport also keeps every socket in a group named by the socket's own id; the
  handlers never touch it, and the properties of a single handler hold for any table.
  An emission reaches the group as it is when the handler emits: every \<^verbatim>\<open>join\<close> of a
  handler comes before its emissions, so that is the group of the state after.
\<close>

record 'v state =
  gameRooms :: "(string \<times> 'v room) list"
  members :: "string \<Rightarrow> conn set"

datatype 'v event =
    CreateRoom string string           \<comment> \<open>random rendering, playerName\<close>
  | JoinRoom string string             \<comment> \<open>roomCode, playerName\<close>
  | PlayerReady string                 \<comment> \<open>roomCode\<close>
  | GameStateUpdate string "'v option" \<comment> \<open>roomCode, gameState\<close>
  | PlayerAction string 'v 'v          \<comment> \<open>roomCode, action, data\<close>
  | Disconnect

datatype 'v msg =
    RoomCreated string conn            \<comment> \<open>roomCode, playerId\<close>
  | RoomJoined string conn
  | Error string
  | PlayersUpdate "player list"
  | GameStart "player list"
  | GameStateChanged "'v option"
  | PlayerActionMsg conn 'v 'v         \<comment> \<open>playerId, action, data\<close>
  | PlayerDisconnected conn

datatype 'v emission =
    ToSocket conn "'v msg"             \<comment> \<open>\<^verbatim>\<open>socket.emit\<close>\<close>
  | ToRoom string "'v msg"             \<comment> \<open>\<^verbatim>\<open>io.to(roomCode).emit\<close>\<close>
  | ToOthers conn string "'v msg"      \<comment> \<open>\<^verbatim>\<open>socket.to(roomCode).emit\<close>\<close>

fun recipients :: "(string \<Rightarrow> conn set) \<Rightarrow> 'v emission \<Rightarrow> conn set" where
  "recipients m (ToSocket c x) = {c}"
| "recipients m (ToRoom k x) = m k"
| "recipients m (ToOthers c k x) = m k - {c}"

definition join :: "conn \<Rightarrow> string \<Rightarrow> (string \<Rightarrow> conn set) \<Rightarrow> (string \<Rightarrow> conn set)" where
  "join c k m = m(k := insert c (m k))"

definition leaveAll :: "conn \<Rightarrow> (string \<Rightarrow> conn set) \<Rightarrow> (string \<Rightarrow> conn set)" where
  "leaveAll c m = (\<lambda>k. m k - {c})"

subsection \<open>Room codes\<close>

text \<open>
  \<^verbatim>\<open>Math.random().toString(36).substring(2, 8).toUpperCase()\<close>. The random number and
  its rendering in radix 36 belong to the runtime; \<open>generateRoomCode\<close> takes the rendering
  as its argument: \<^verbatim>\<open>"0"\<close> for 0, otherwise \<^verbatim>\<open>"0."\<close> followed by the digits of the fraction
  (\<^verbatim>\<open>"0.i"\<close> for 0.5, since 18/36 = 1/2 and the digit 18 is \<^verbatim>\<open>i\<close>).
  \<^verbatim>\<open>substring(a, b)\<close> with \<open>a \<le> b\<close> clamps both ends to the length, as \<open>take\<close> and \<open>drop\<close> do.
\<close>

definition substring :: "string \<Rightarrow> nat \<Rightarrow> nat \<Rightarrow> string" where
  "substring s a b = take (b - a) (drop a s)"

text \<open>
  \<^verbatim>\<open>toUpperCase\<close> on the characters a rendering can hold (digits, lower-case letters and
  the point): a lower-case letter becomes its capital, every other character stays.
\<close>

definition upperChar :: "char \<Rightarrow> char" where
  "upperChar c =
     (case map_of (zip ''abcdefghijklmnopqrstuvwxyz'' ''ABCDEFGHIJKLMNOPQRSTUVWXYZ'') c of
        None \<Rightarrow> c
      | Some u \<Rightarrow> u)"

definition toUpperCase :: "string \<Rightarrow> string" where
  "toUpperCase s = map upperChar s"

definition generateRoomCode :: "string \<Rightarrow> string" where
  "generateRoomCode rnd = toUpperCase (substring rnd 2 8)"

subsection \<open>Array helpers\<close>

fun findIndex :: "('a \<Rightarrow> bool) \<Rightarrow> 'a list \<Rightarrow> nat option" where
  "findIndex P [] = None"
| "findIndex P (x # xs) =
     (if P x then Some 0 else (case findIndex P xs of None \<Rightarrow> None | Some i \<Rightarrow> Some (Suc i)))"

text \<open>\<^verbatim>\<open>xs.splice(i, 1)\<close> with \<open>i\<close> in range: the element at \<open>i\<close> goes, the rest keep their order.\<close>

definition splice1 :: "nat \<Rightarrow> 'a list \<Rightarrow> 'a list" where
  "splice1 i xs = take i xs @ drop (Suc i) xs"

subsection \<open>Handlers\<close>

definition createRoom :: "'v state \<Rightarrow> conn \<Rightarrow> string \<Rightarrow> string \<Rightarrow> 'v state \<times> 'v emission list" where
  "createRoom s c rnd playerName =
     (let roomCode = generateRoomCode rnd;
          room = \<lparr>code = roomCode,
                  players = [\<lparr>pid = c, name = playerName, ready = False\<rparr>],
                  gameState = None,
                  started = False\<rparr>
      in (s\<lparr>gameRooms := AList.update roomCode room (gameRooms s),
            members := join c roomCode (members s)\<rparr>,
          [ToSocket c (RoomCreated roomCode c)]))"

definition joinRoom :: "'v state \<Rightarrow> conn \<Rightarrow> string \<Rightarrow> string \<Rightarrow> 'v state \<times> 'v emission list" where
  "joinRoom s c roomCode playerName =
     (case map_of (gameRooms s) roomCode of
        None \<Rightarrow> (s, [ToSocket c (Error ''Room not found'')])
      | Some room \<Rightarrow>
          if started room then (s, [ToSocket c (Error ''Game already started'')])
          else if length (players room) \<ge> 5 then (s, [ToSocket c (Error ''Room is full'')])
          else
            (let ps = players room @ [\<lparr>pid = c, name = playerName, ready = False\<rparr>]
             in (s\<lparr>gameRooms := AList.update roomCode (room\<lparr>players := ps\<rparr>) (gameRooms s),
                   members := join c roomCode (members s)\<rparr>,
                 [ToSocket c (RoomJoined roomCode c), ToRoom roomCode (PlayersUpdate ps)])))"

definition playerReady :: "'v state \<Rightarrow> conn \<Rightarrow> string \<Rightarrow> 'v state \<times> 'v emission list" where
  "playerReady s c roomCode =
     (case map_of (gameRooms s) roomCode of
        None \<Rightarrow> (s, [])
      | Some room \<Rightarrow>
          (case findIndex (\<lambda>p. pid p = c) (players room) of
             None \<Rightarrow> (s, [])
           | Some i \<Rightarrow>
               (let ps = (players room)[i := (players room ! i)\<lparr>ready := True\<rparr>]
                in if length ps \<ge> 2 \<and> list_all ready ps
                   then (s\<lparr>gameRooms :=
                             AList.update roomCode (room\<lparr>players := ps, started := True\<rparr>) (gameRooms s)\<rparr>,
                         [ToRoom roomCode (PlayersUpdate ps), ToRoom roomCode (GameStart ps)])
                   else (s\<lparr>gameRooms := AList.update roomCode (room\<lparr>players := ps\<rparr>) (gameRooms s)\<rparr>,
                         [ToRoom roomCode (PlayersUpdate ps)]))))"

definition gameStateUpdate ::
  "'v state \<Rightarrow> conn \<Rightarrow> string \<Rightarrow> 'v option \<Rightarrow> 'v state \<times> 'v emission list" where
  "gameStateUpdate s c roomCode g =
     (case map_of (gameRooms s) roomCode of
        None \<Rightarrow> (s, [])
      | Some room \<Rightarrow>
          (s\<lparr>gameRooms := AList.update roomCode (room\<lparr>gameState := g\<rparr>) (gameRooms s)\<rparr>,
           [ToOthers c roomCode (GameStateChanged g)]))"

definition playerAction :: "'v state \<Rightarrow> conn \<Rightarrow> string \<Rightarrow> 'v \<Rightarrow> 'v \<Rightarrow> 'v state \<times> 'v emission list" where
  "playerAction s c roomCode action data = (s, [ToRoom roomCode (PlayerActionMsg c action data)])"

text \<open>
  The \<^verbatim>\<open>forEach\<close> of the disconnect handler visits the entries in order. An entry whose
  room loses its last player is deleted, the others stay where they are.
\<close>

fun disconnectScan ::
  "conn \<Rightarrow> (string \<times> 'v room) list \<Rightarrow> (string \<times> 'v room) list \<times> 'v emission list" where
  "disconnectScan c [] = ([], [])"
| "disconnectScan c ((roomCode, room) # rest) =
     (let (rest', out) = disconnectScan c rest
      in case findIndex (\<lambda>p. pid p = c) (players room) of
           None \<Rightarrow> ((roomCode, room) # rest', out)
         | Some playerIndex \<Rightarrow>
             (let ps = splice1 playerIndex (players room)
              in if length ps = 0 then (rest', out)
                 else ((roomCode, room\<lparr>players := ps\<rparr>) # rest',
                       ToRoom roomCode (PlayersUpdate ps)
                         # ToRoom roomCode (PlayerDisconnected c) # out)))"

definition disconnect :: "'v state \<Rightarrow> conn \<Rightarrow> 'v state \<times> 'v emission list" where
  "disconnect s c =
     (let (rooms, out) = disconnectScan c (gameRooms s)
      in (s\<lparr>gameRooms := rooms, members := leaveAll c (members s)\<rparr>, out))"

fun handle :: "'v state \<Rightarrow> conn \<Rightarrow> 'v event \<Rightarrow> 'v state \<times> 'v emission list" where
  "handle s c (CreateRoom rnd playerName) = createRoom s c rnd playerName"
| "handle s c (JoinRoom roomCode playerName) = joinRoom s c roomCode playerName"
| "handle s c (PlayerReady roomCode) = playerReady s c roomCode"
| "handle s c (GameStateUpdate roomCode g) = gameStateUpdate s c roomCode g"
| "handle s c (PlayerAction roomCode action data) = playerAction s c roomCode action data"
| "handle s c Disconnect = disconnect s c"

text \<open>The server starts with an empty registry; \<open>run\<close> feeds it a sequence of events.\<close>

definition init :: "'v state" where
  "init = \<lparr>gameRooms = [], members = (\<lambda>k. {})\<rparr>"

fun run :: "'v state \<Rightarrow> (conn \<times> 'v event) list \<Rightarrow> 'v state \<times> 'v emission list" where
  "run s [] = (s, [])"
| "run s ((c, e) # evs) =
     (let (s', out) = handle s c e; (s'', out') = run s' evs in (s'', out @ out'))"

subsection \<open>Notions used by the properties\<close>

text \<open>\<open>gameStartFor k x\<close>: the emission \<open>x\<close> is a \<^verbatim>\<open>gameStart\<close> broadcast to room \<open>k\<close>.\<close>

fun gameStartFor :: "string \<Rightarrow> 'v emission \<Rightarrow> bool" where
  "gameStartFor k (ToRoom k' (GameStart ps)) = (k = k')"
| "gameStartFor k x = False"

text \<open>\<open>isError x\<close>: the emission \<open>x\<close> carries an \<^verbatim>\<open>error\<close> message.\<close>

fun msgOf :: "'v emission \<Rightarrow> 'v msg" where
  "msgOf (ToSocket c x) = x"
| "msgOf (ToRoom k x) = x"
| "msgOf (ToOthers c k x) = x"

fun isError :: "'v emission \<Rightarrow> bool" where
  "isError x = (case msgOf x of Error t \<Rightarrow> True | _ \<Rightarrow> False)"

text \<open>The capacity bound on every room of a registry.\<close>

definition capacityOk :: "(string \<times> 'v room) list \<Rightarrow> bool" where
  "capacityOk rooms = list_all (\<lambda>(k, room). length (players room) \<le> 5) rooms"

text \<open>
  Where the player object at index \<open>i\<close> of room \<open>k\<close> is after one event, \<open>None\<close> when it
  is no longer in the registry. \<^verbatim>\<open>createRoom\<close> puts a new room object under its code,
  so the players of a room that had this code are gone with it; \<^verbatim>\<open>splice\<close> moves the
  players behind the removed one down by one; no other handler moves a player.
\<close>

fun track :: "'v state \<Rightarrow> conn \<Rightarrow> 'v event \<Rightarrow> string \<Rightarrow> nat \<Rightarrow> nat option" where
  "track s c (CreateRoom rnd playerName) k i = (if generateRoomCode rnd = k then None else Some i)"
| "track s c Disconnect k i =
     (case map_of (gameRooms s) k of
        None \<Rightarrow> None
      | Some room \<Rightarrow>
          (case findIndex (\<lambda>p. pid p = c) (players room) of
             None \<Rightarrow> Some i
           | Some playerIndex \<Rightarrow>
               if i = playerIndex then None
               else if playerIndex < i then Some (i - 1)
               else Some i))"
| "track s c e k i = Some i"

fun trackRun :: "'v state \<Rightarrow> (conn \<times> 'v event) list \<Rightarrow> string \<Rightarrow> nat \<Rightarrow> nat option" where
  "trackRun s [] k i = Some i"
| "trackRun s ((c, e) # evs) k i =
     (case track s c e k i of
        None \<Rightarrow> None
      | Some j \<Rightarrow> trackRun (fst (handle s c e)) evs k j)"

subsection \<open>Example sessions\<close>

text \<open>
  Alice (socket \<open>a\<close>) creates a room, the random number rendering as \<^verbatim>\<open>0.4fzyo82mvyr\<close>,
  and Bob (socket \<open>b\<close>) joins it.
\<close>

definition alice :: "player" where
  "alice = \<lparr>pid = ''a'', name = ''Alice'', ready = False\<rparr>"

definition bob :: "player" where
  "bob = \<lparr>pid = ''b'', name = ''Bob'', ready = False\<rparr>"

definition lobbyEvents :: "(conn \<times> string event) list" where
  "lobbyEvents =
     [(''a'', CreateRoom ''0.4fzyo82mvyr'' ''Alice''), (''b'', JoinRoom ''4FZYO8'' ''Bob'')]"

definition lobby :: "string state" where
  "lobby = fst (run init lobbyEvents)"

definition lobbyRoom :: "string room" where
  "lobbyRoom = \<lparr>code = ''4FZYO8'', players = [alice, bob], gameState = None, started = False\<rparr>"

text \<open>Both say they are ready: the game of the room has started.\<close>

definition startedEvents :: "(conn \<times> string event) list" where
  "startedEvents = lobbyEvents @ [(''a'', PlayerReady ''4FZYO8''), (''b'', PlayerReady ''4FZYO8'')]"

definition startedRoom :: "string room" where
  "startedRoom =
     \<lparr>code = ''4FZYO8'', players = [alice\<lparr>ready := True\<rparr>, bob\<lparr>ready := True\<rparr>],
      gameState = None, started = True\<rparr>"

text \<open>A room of five, none of them ready.\<close>

definition fullRoom :: "string room" where
  "fullRoom =
     \<lparr>code = ''FULL55'',
      players = map (\<lambda>c. \<lparr>pid = c, name = c, ready = False\<rparr>) [''p1'', ''p2'', ''p3'', ''p4'', ''p5''],
      gameState = None, started = False\<rparr>"

definition fullState :: "string state" where
  "fullState = \<lparr>gameRooms = [(''FULL55'', fullRoom)], members = (\<lambda>k. {})\<rparr>"

text \<open>Five more try to join the room of Alice and Bob; it takes three of them.\<close>

definition crowdEvents :: "(conn \<times> string event) list" where
  "crowdEvents = lobbyEvents @ map (\<lambda>c. (c, JoinRoom ''4FZYO8'' c)) [''c'', ''d'', ''e'', ''f'', ''g'']"

definition crowdRoom :: "string room" where
  "crowdRoom =
     \<lparr>code = ''4FZYO8'',
      players = [alice, bob] @ map (\<lambda>c. \<lparr>pid = c, name = c, ready = False\<rparr>) [''c'', ''d'', ''e''],
      gameState = None, started = False\<rparr>"

text \<open>
  Bob is ready; then Carol joins, Alice disconnects and Carol sends \<^verbatim>\<open>playerReady\<close>.
\<close>

definition readyEvents :: "(conn \<times> string event) list" where
  "readyEvents = lobbyEvents @ [(''b'', PlayerReady ''4FZYO8'')]"

definition laterEvents :: "(conn \<times> string event) list" where
  "laterEvents =
     [(''c'', JoinRoom ''4FZYO8'' ''Carol''), (''a'', Disconnect), (''c'', PlayerReady ''4FZYO8'')]"

text \<open>Alice creates a room and then joins it again, from the same socket.\<close>

definition twiceEvents :: "(conn \<times> string event) list" where
  "twiceEvents =
     [(''a'', CreateRoom ''0.4fzyo82mvyr'' ''Alice''), (''a'', JoinRoom ''4FZYO8'' ''Alice'')]"

definition twiceRoom :: "string room" where
  "twiceRoom = \<lparr>code = ''4FZYO8'', players = [alice, alice], gameState = None, started = False\<rparr>"

section \<open>Properties\<close>

subsection \<open>Evaluation of the examples\<close>

lemmas code_defs = generateRoomCode_def toUpperCase_def substring_def upperChar_def

lemmas handler_defs = createRoom_def joinRoom_def playerReady_def gameStateUpdate_def
  playerAction_def disconnect_def

lemmas example_defs = lobby_def lobbyEvents_def startedEvents_def twiceEvents_def init_def
  lobbyRoom_def startedRoom_def alice_def bob_def fullRoom_def fullState_def
  crowdEvents_def crowdRoom_def readyEvents_def laterEvents_def twiceRoom_def

lemma code_example: "generateRoomCode ''0.4fzyo82mvyr'' = ''4FZYO8''"
  by (simp add: code_defs)

lemma lobby_rooms: "gameRooms lobby = [(''4FZYO8'', lobbyRoom)]"
  by (simp add: example_defs handler_defs Let_def code_example)

lemma lobby_members: "members lobby ''4FZYO8'' = {''a'', ''b''}"
  by (auto simp add: example_defs handler_defs Let_def code_example join_def)

lemma started_rooms: "gameRooms (fst (run init startedEvents)) = [(''4FZYO8'', startedRoom)]"
  by (simp add: example_defs handler_defs Let_def code_example)

subsection \<open>Projections of the pairs the handlers return\<close>

lemma rooms_disconnect: "gameRooms (fst (disconnect s c)) = fst (disconnectScan c (gameRooms s))"
  by (simp add: disconnect_def split_beta)

lemma members_disconnect: "members (fst (disconnect s c)) = leaveAll c (members s)"
  by (simp add: disconnect_def split_beta)

lemma snd_disconnect: "snd (disconnect s c) = snd (disconnectScan c (gameRooms s))"
  by (simp add: disconnect_def split_beta)

lemma fst_run_Cons: "fst (run s ((c, e) # evs)) = fst (run (fst (handle s c e)) evs)"
  by (simp add: split_beta)

lemma snd_run_Cons:
  "snd (run s ((c, e) # evs)) = snd (handle s c e) @ snd (run (fst (handle s c e)) evs)"
  by (simp add: split_beta)

subsection \<open>\<open>findIndex\<close>\<close>

lemma findIndex_None: "findIndex P xs = None \<longleftrightarrow> (\<forall>x\<in>set xs. \<not> P x)"
  by (induction xs) (auto split: option.splits)

lemma findIndex_Some:
  "findIndex P xs = Some i \<Longrightarrow> i < length xs \<and> P (xs ! i) \<and> (\<forall>j<i. \<not> P (xs ! j))"
proof (induction xs arbitrary: i)
  case Nil
  then show ?case by simp
next
  case (Cons x xs)
  show ?case
  proof (cases "P x")
    case True
    with Cons.prems show ?thesis by simp
  next
    case False
    with Cons.prems obtain i' where i': "findIndex P xs = Some i'" "i = Suc i'"
      by (auto split: option.splits)
    from Cons.IH[OF i'(1)] False i'(2) show ?thesis
      by (auto simp: less_Suc_eq_0_disj)
  qed
qed

subsection \<open>When the game starts\<close>

lemma gameStartFor_iff: "gameStartFor k x \<longleftrightarrow> (\<exists>ps. x = ToRoom k (GameStart ps))"
  by (cases "(k, x)" rule: gameStartFor.cases) auto

lemma disconnectScan_emits:
  "x \<in> set (snd (disconnectScan c rooms)) \<Longrightarrow>
     (\<exists>k ps. x = ToRoom k (PlayersUpdate ps)) \<or> (\<exists>k. x = ToRoom k (PlayerDisconnected c))"
  by (induction rooms) (auto simp: Let_def split: prod.splits option.splits if_splits)

lemma disconnect_no_gameStart: "\<not> list_ex (gameStartFor k) (snd (disconnect s c))"
proof
  assume "list_ex (gameStartFor k) (snd (disconnect s c))"
  then obtain ps where "ToRoom k (GameStart ps) \<in> set (snd (disconnectScan c (gameRooms s)))"
    by (auto simp: disconnect_def list_ex_iff gameStartFor_iff split: prod.splits)
  from disconnectScan_emits[OF this] show False by auto
qed

text \<open>\<^verbatim>\<open>gameStart\<close> is only ever sent as a broadcast to a room.\<close>

lemma gameStart_only_broadcast:
  assumes "x \<in> set (snd (handle s c e))" "msgOf x = GameStart ps"
  shows "\<exists>k. x = ToRoom k (GameStart ps)"
proof (cases e)
  case Disconnect
  with assms(1) have "x \<in> set (snd (disconnectScan c (gameRooms s)))"
    by (simp add: snd_disconnect)
  from disconnectScan_emits[OF this] assms(2) show ?thesis by auto
qed (use assms in \<open>auto simp: createRoom_def joinRoom_def playerReady_def gameStateUpdate_def
      playerAction_def Let_def split: option.splits if_splits\<close>)

text \<open>
  C1, as the handlers have it. An event broadcasts \<^verbatim>\<open>gameStart\<close> to room \<open>k\<close> exactly when
  it is a \<^verbatim>\<open>playerReady\<close> for \<open>k\<close> from a player of the live room \<open>k\<close> and, right after the
  handler has set the flag, the room has at least two players and all of them are ready.
  The \<open>started\<close> flag of the room is not part of the condition: the state \<open>s\<close> is any
  state, also one where the room has started.
\<close>

theorem gameStart_iff_all_ready:
  "list_ex (gameStartFor k) (snd (handle s c e)) \<longleftrightarrow>
     (e = PlayerReady k
      \<and> (\<exists>room room'. map_of (gameRooms s) k = Some room
            \<and> (\<exists>p\<in>set (players room). pid p = c)
            \<and> map_of (gameRooms (fst (handle s c e))) k = Some room'
            \<and> 2 \<le> length (players room')
            \<and> (\<forall>p\<in>set (players room'). ready p)))"
proof (cases e)
  case (PlayerReady k')
  show ?thesis
  proof (cases "map_of (gameRooms s) k'")
    case None
    then show ?thesis using PlayerReady by (auto simp: playerReady_def)
  next
    case (Some room)
    show ?thesis
    proof (cases "findIndex (\<lambda>p. pid p = c) (players room)")
      case None
      then have "\<forall>p\<in>set (players room). pid p \<noteq> c"
        by (simp add: findIndex_None)
      then show ?thesis using PlayerReady Some None
        by (auto simp: playerReady_def)
    next
      case Some2: (Some i)
      from findIndex_Some[OF Some2] have "\<exists>p\<in>set (players room). pid p = c"
        by (metis nth_mem)
      then show ?thesis using PlayerReady Some Some2
        by (auto simp: playerReady_def Let_def update_conv' list_all_iff)
    qed
  qed
next
  case Disconnect
  then show ?thesis using disconnect_no_gameStart[of k s c] by simp
qed (auto simp: createRoom_def joinRoom_def gameStateUpdate_def playerAction_def Let_def
      split: option.splits)

text \<open>
  The theorem at the second \<^verbatim>\<open>playerReady\<close> of Alice, in the room that has started:
  the condition holds and \<^verbatim>\<open>gameStart\<close> goes out.
\<close>

theorem gameStart_iff_all_ready_witness:
  "list_ex (gameStartFor ''4FZYO8'')
     (snd (handle (fst (run init startedEvents)) ''a'' (PlayerReady ''4FZYO8'')))
   \<and> map_of (gameRooms (fst (run init startedEvents))) ''4FZYO8'' = Some startedRoom
   \<and> (\<exists>p\<in>set (players startedRoom). pid p = ''a'')
   \<and> 2 \<le> length (players startedRoom) \<and> list_all ready (players startedRoom)"
  using gameStart_iff_all_ready [of "''4FZYO8''" "fst (run init startedEvents)" "''a''"
      "PlayerReady ''4FZYO8''"]
  by (simp add: started_rooms playerReady_def Let_def startedRoom_def alice_def bob_def)

text \<open>
  \<^verbatim>\<open>gameStart\<close> more than once: after Alice and Bob are ready the room has started and
  \<^verbatim>\<open>gameStart\<close> has gone out once; Alice's next \<^verbatim>\<open>playerReady\<close> sends it again.
\<close>

theorem gameStart_twice_counterexample:
  "started (the (map_of (gameRooms (fst (run init startedEvents))) ''4FZYO8''))
   \<and> length (filter (gameStartFor ''4FZYO8'') (snd (run init startedEvents))) = 1
   \<and> snd (handle (fst (run init startedEvents)) ''a'' (PlayerReady ''4FZYO8''))
       = [ToRoom ''4FZYO8'' (PlayersUpdate (players startedRoom)),
          ToRoom ''4FZYO8'' (GameStart (players startedRoom))]"
  by (simp add: example_defs handler_defs Let_def code_example)

subsection \<open>Joining a room\<close>

text \<open>
  C2. \<^verbatim>\<open>joinRoom\<close> fails in three cases, looked at in this order: no room under the code;
  the room has started (whatever its size); the room has five or more players (whatever
  their flags). In each the state is the state before and the one emission is an
  \<^verbatim>\<open>error\<close> to the requester alone. In the remaining case no \<^verbatim>\<open>error\<close> is sent.
\<close>

theorem joinRoom_failures:
  "(map_of (gameRooms s) k = None \<longrightarrow>
      handle s c (JoinRoom k n) = (s, [ToSocket c (Error ''Room not found'')]))
   \<and> (\<forall>room. map_of (gameRooms s) k = Some room \<and> started room \<longrightarrow>
      handle s c (JoinRoom k n) = (s, [ToSocket c (Error ''Game already started'')]))
   \<and> (\<forall>room. map_of (gameRooms s) k = Some room \<and> \<not> started room \<and> 5 \<le> length (players room) \<longrightarrow>
      handle s c (JoinRoom k n) = (s, [ToSocket c (Error ''Room is full'')]))
   \<and> (\<forall>room. map_of (gameRooms s) k = Some room \<and> \<not> started room \<and> length (players room) < 5 \<longrightarrow>
      \<not> list_ex isError (snd (handle s c (JoinRoom k n))))
   \<and> recipients (members s) (ToSocket c (Error t) :: 'v emission) = {c}"
  by (auto simp add: joinRoom_def Let_def)

theorem joinRoom_failures_witness:
  "map_of (gameRooms lobby) ''NOSUCH'' = None
   \<and> handle lobby ''c'' (JoinRoom ''NOSUCH'' ''Carol'') = (lobby, [ToSocket ''c'' (Error ''Room not found'')])
   \<and> map_of (gameRooms (fst (run init startedEvents))) ''4FZYO8'' = Some startedRoom
   \<and> started startedRoom \<and> length (players startedRoom) < 5
   \<and> handle (fst (run init startedEvents)) ''c'' (JoinRoom ''4FZYO8'' ''Carol'')
       = (fst (run init startedEvents), [ToSocket ''c'' (Error ''Game already started'')])
   \<and> map_of (gameRooms fullState) ''FULL55'' = Some fullRoom
   \<and> \<not> started fullRoom \<and> 5 \<le> length (players fullRoom) \<and> \<not> list_ex ready (players fullRoom)
   \<and> handle fullState ''c'' (JoinRoom ''FULL55'' ''Carol'') = (fullState, [ToSocket ''c'' (Error ''Room is full'')])
   \<and> map_of (gameRooms lobby) ''4FZYO8'' = Some lobbyRoom
   \<and> \<not> started lobbyRoom \<and> length (players lobbyRoom) < 5
   \<and> \<not> list_ex isError (snd (handle lobby ''c'' (JoinRoom ''4FZYO8'' ''Carol'')))"
  using joinRoom_failures [of lobby "''NOSUCH''" "''c''" "''Carol''"]
    joinRoom_failures [of "fst (run init startedEvents)" "''4FZYO8''" "''c''" "''Carol''"]
    joinRoom_failures [of fullState "''FULL55''" "''c''" "''Carol''"]
    joinRoom_failures [of lobby "''4FZYO8''" "''c''" "''Carol''"]
  by (simp add: lobby_rooms started_rooms startedRoom_def lobbyRoom_def fullState_def fullRoom_def)

text \<open>
  C3. A \<^verbatim>\<open>joinRoom\<close> that passes the three checks puts a new player, not ready, at the end
  of the room's players, sends \<^verbatim>\<open>roomJoined\<close> with the code and the joiner's id to the
  joiner alone, and broadcasts \<^verbatim>\<open>playersUpdate\<close> with the whole new list to the group
  of the room, which now holds the joiner.
\<close>

theorem joinRoom_success:
  assumes "map_of (gameRooms s) k = Some room" "\<not> started room" "length (players room) < 5"
  shows "case handle s c (JoinRoom k n) of (s', out) \<Rightarrow>
           map_of (gameRooms s') =
             (map_of (gameRooms s))(k \<mapsto> room\<lparr>players := players room @ [\<lparr>pid = c, name = n, ready = False\<rparr>]\<rparr>)
         \<and> out = [ToSocket c (RoomJoined k c),
                   ToRoom k (PlayersUpdate (players room @ [\<lparr>pid = c, name = n, ready = False\<rparr>]))]
         \<and> recipients (members s') (out ! 0) = {c}
         \<and> recipients (members s') (out ! 1) = members s' k
         \<and> members s' k = insert c (members s k)"
  using assms by (simp add: joinRoom_def Let_def update_conv' join_def)

theorem joinRoom_success_witness:
  "map_of (gameRooms lobby) ''4FZYO8'' = Some lobbyRoom \<and> \<not> started lobbyRoom
   \<and> length (players lobbyRoom) < 5
   \<and> (case handle lobby ''c'' (JoinRoom ''4FZYO8'' ''Carol'') of (s', out) \<Rightarrow>
         map_of (gameRooms s') ''4FZYO8''
           = Some (lobbyRoom\<lparr>players := [alice, bob, \<lparr>pid = ''c'', name = ''Carol'', ready = False\<rparr>]\<rparr>)
       \<and> out = [ToSocket ''c'' (RoomJoined ''4FZYO8'' ''c''),
                 ToRoom ''4FZYO8'' (PlayersUpdate [alice, bob, \<lparr>pid = ''c'', name = ''Carol'', ready = False\<rparr>])]
       \<and> recipients (members s') (out ! 1) = {''a'', ''b'', ''c''})"
proof -
  have h: "map_of (gameRooms lobby) ''4FZYO8'' = Some lobbyRoom" "\<not> started lobbyRoom"
    "length (players lobbyRoom) < 5"
    by (simp_all add: lobby_rooms lobbyRoom_def)
  show ?thesis
    using h joinRoom_success [OF h, of "''c''" "''Carol''"]
    by (auto simp add: lobby_members lobbyRoom_def split: prod.splits)
qed

subsection \<open>Ready\<close>

text \<open>
  C6. \<^verbatim>\<open>playerReady\<close> returns the state as it was and emits nothing when no room has the
  code, and when the room has no player with the sender's id. Otherwise the player the
  handler finds (the first one with the sender's id) has its flag set, every other entry
  of the list and the code and game state of the room are as before, no other room and
  no group changes, and the first emission is \<^verbatim>\<open>playersUpdate\<close> with the new list, to the
  whole group of the room.
\<close>

theorem playerReady_effect:
  "(map_of (gameRooms s) k = None \<longrightarrow> handle s c (PlayerReady k) = (s, []))
   \<and> (\<forall>room. map_of (gameRooms s) k = Some room \<and> (\<forall>p\<in>set (players room). pid p \<noteq> c) \<longrightarrow>
        handle s c (PlayerReady k) = (s, []))
   \<and> (\<forall>room. map_of (gameRooms s) k = Some room \<and> (\<exists>p\<in>set (players room). pid p = c) \<longrightarrow>
        (\<exists>i room'. i < length (players room) \<and> pid (players room ! i) = c
           \<and> (\<forall>j<i. pid (players room ! j) \<noteq> c)
           \<and> map_of (gameRooms (fst (handle s c (PlayerReady k)))) = (map_of (gameRooms s))(k \<mapsto> room')
           \<and> players room' = (players room)[i := (players room ! i)\<lparr>ready := True\<rparr>]
           \<and> code room' = code room \<and> gameState room' = gameState room
           \<and> members (fst (handle s c (PlayerReady k))) = members s
           \<and> hd (snd (handle s c (PlayerReady k))) = ToRoom k (PlayersUpdate (players room'))
           \<and> recipients (members s) (hd (snd (handle s c (PlayerReady k)))) = members s k))"
proof (intro conjI allI impI)
  assume "map_of (gameRooms s) k = None"
  then show "handle s c (PlayerReady k) = (s, [])" by (simp add: playerReady_def)
next
  fix room
  assume "map_of (gameRooms s) k = Some room \<and> (\<forall>p\<in>set (players room). pid p \<noteq> c)"
  then have "map_of (gameRooms s) k = Some room" "findIndex (\<lambda>p. pid p = c) (players room) = None"
    by (simp_all add: findIndex_None)
  then show "handle s c (PlayerReady k) = (s, [])" by (simp add: playerReady_def)
next
  fix room
  assume a: "map_of (gameRooms s) k = Some room \<and> (\<exists>p\<in>set (players room). pid p = c)"
  then obtain i where i: "findIndex (\<lambda>p. pid p = c) (players room) = Some i"
    using findIndex_None[of "\<lambda>p. pid p = c" "players room"] by (cases "findIndex (\<lambda>p. pid p = c) (players room)") auto
  let ?ps = "(players room)[i := (players room ! i)\<lparr>ready := True\<rparr>]"
  let ?room' = "if 2 \<le> length ?ps \<and> list_all ready ?ps then room\<lparr>players := ?ps, started := True\<rparr>
                else room\<lparr>players := ?ps\<rparr>"
  from findIndex_Some[OF i] have "i < length (players room)" "pid (players room ! i) = c"
    "\<forall>j<i. pid (players room ! j) \<noteq> c" by auto
  moreover have "map_of (gameRooms (fst (handle s c (PlayerReady k)))) = (map_of (gameRooms s))(k \<mapsto> ?room')"
    "members (fst (handle s c (PlayerReady k))) = members s"
    "hd (snd (handle s c (PlayerReady k))) = ToRoom k (PlayersUpdate (players ?room'))"
    using a i by (simp_all add: playerReady_def Let_def update_conv')
  moreover have "players ?room' = ?ps" "code ?room' = code room" "gameState ?room' = gameState room"
    by simp_all
  ultimately show "\<exists>i room'. i < length (players room) \<and> pid (players room ! i) = c
           \<and> (\<forall>j<i. pid (players room ! j) \<noteq> c)
           \<and> map_of (gameRooms (fst (handle s c (PlayerReady k)))) = (map_of (gameRooms s))(k \<mapsto> room')
           \<and> players room' = (players room)[i := (players room ! i)\<lparr>ready := True\<rparr>]
           \<and> code room' = code room \<and> gameState room' = gameState room
           \<and> members (fst (handle s c (PlayerReady k))) = members s
           \<and> hd (snd (handle s c (PlayerReady k))) = ToRoom k (PlayersUpdate (players room'))
           \<and> recipients (members s) (hd (snd (handle s c (PlayerReady k)))) = members s k"
    by (intro exI[of _ i] exI[of _ ?room']) (simp only: recipients.simps simp_thms)
qed

theorem playerReady_effect_witness:
  "map_of (gameRooms lobby) ''NOSUCH'' = None
   \<and> handle lobby ''b'' (PlayerReady ''NOSUCH'') = (lobby, [])
   \<and> map_of (gameRooms lobby) ''4FZYO8'' = Some lobbyRoom
   \<and> list_all (\<lambda>p. pid p \<noteq> ''z'') (players lobbyRoom)
   \<and> handle lobby ''z'' (PlayerReady ''4FZYO8'') = (lobby, [])
   \<and> list_ex (\<lambda>p. pid p = ''b'') (players lobbyRoom)
   \<and> map_of (gameRooms (fst (handle lobby ''b'' (PlayerReady ''4FZYO8'')))) ''4FZYO8''
       = Some (lobbyRoom\<lparr>players := [alice, bob\<lparr>ready := True\<rparr>]\<rparr>)
   \<and> snd (handle lobby ''b'' (PlayerReady ''4FZYO8''))
       = [ToRoom ''4FZYO8'' (PlayersUpdate [alice, bob\<lparr>ready := True\<rparr>])]"
  using playerReady_effect [of lobby "''NOSUCH''" "''b''"]
    playerReady_effect [of lobby "''4FZYO8''" "''z''"]
    playerReady_effect [of lobby "''4FZYO8''" "''b''"]
  by (simp add: lobby_rooms lobbyRoom_def alice_def bob_def playerReady_def Let_def)

subsection \<open>The two relays\<close>

text \<open>
  C7. \<^verbatim>\<open>playerAction\<close> returns the state it was given, whatever the registry holds under
  the code, and its one emission is \<^verbatim>\<open>playerAction\<close> with the sender's id, the action
  and the data, to the whole group of that code, the sender not taken out.
\<close>

theorem playerAction_relay:
  "handle s c (PlayerAction k a d) = (s, [ToRoom k (PlayerActionMsg c a d)])
   \<and> recipients (members s) (ToRoom k (PlayerActionMsg c a d)) = members s k"
  by (simp add: playerAction_def)

theorem playerAction_relay_witness:
  "map_of (gameRooms lobby) ''NOSUCH'' = None
   \<and> handle lobby ''b'' (PlayerAction ''NOSUCH'' ''play'' ''3 of hearts'')
       = (lobby, [ToRoom ''NOSUCH'' (PlayerActionMsg ''b'' ''play'' ''3 of hearts'')])
   \<and> handle lobby ''b'' (PlayerAction ''4FZYO8'' ''play'' ''3 of hearts'')
       = (lobby, [ToRoom ''4FZYO8'' (PlayerActionMsg ''b'' ''play'' ''3 of hearts'')])
   \<and> recipients (members lobby) (ToRoom ''4FZYO8'' (PlayerActionMsg ''b'' ''play'' ''3 of hearts''))
       = {''a'', ''b''}"
  using playerAction_relay [of lobby "''b''" "''NOSUCH''" "''play''" "''3 of hearts''"]
    playerAction_relay [of lobby "''b''" "''4FZYO8''" "''play''" "''3 of hearts''"]
  by (simp add: lobby_rooms lobby_members)

text \<open>
  C9. \<^verbatim>\<open>gameStateUpdate\<close> for a code with no room changes nothing and emits nothing. For a
  live room, from any connection \<open>c\<close> (nothing is asked of \<open>c\<close>), the game state of the
  room becomes the payload, nothing else changes, and \<^verbatim>\<open>gameStateChanged\<close> goes to the
  group of the room without the sender.
\<close>

theorem gameStateUpdate_any_sender:
  "(map_of (gameRooms s) k = None \<longrightarrow> handle s c (GameStateUpdate k g) = (s, []))
   \<and> (\<forall>room. map_of (gameRooms s) k = Some room \<longrightarrow>
        (case handle s c (GameStateUpdate k g) of (s', out) \<Rightarrow>
           map_of (gameRooms s') = (map_of (gameRooms s))(k \<mapsto> room\<lparr>gameState := g\<rparr>)
         \<and> members s' = members s
         \<and> out = [ToOthers c k (GameStateChanged g)]
         \<and> recipients (members s') (ToOthers c k (GameStateChanged g)) = members s k - {c}))"
  by (simp add: gameStateUpdate_def update_conv')

theorem gameStateUpdate_any_sender_witness:
  "map_of (gameRooms lobby) ''NOSUCH'' = None
   \<and> handle lobby ''z'' (GameStateUpdate ''NOSUCH'' (Some ''pile: 7'')) = (lobby, [])
   \<and> map_of (gameRooms lobby) ''4FZYO8'' = Some lobbyRoom
   \<and> list_all (\<lambda>p. pid p \<noteq> ''z'') (players lobbyRoom)
   \<and> (case handle lobby ''z'' (GameStateUpdate ''4FZYO8'' (Some ''pile: 7'')) of (s', out) \<Rightarrow>
         map_of (gameRooms s') ''4FZYO8'' = Some (lobbyRoom\<lparr>gameState := Some ''pile: 7''\<rparr>)
       \<and> out = [ToOthers ''z'' ''4FZYO8'' (GameStateChanged (Some ''pile: 7''))]
       \<and> recipients (members s') (ToOthers ''z'' ''4FZYO8'' (GameStateChanged (Some ''pile: 7'')))
           = {''a'', ''b''})"
  using gameStateUpdate_any_sender [of lobby "''NOSUCH''" "''z''" "Some ''pile: 7''"]
    gameStateUpdate_any_sender [of lobby "''4FZYO8''" "''z''" "Some ''pile: 7''"]
  by (auto simp add: lobby_rooms lobby_members lobbyRoom_def alice_def bob_def split: prod.splits)

subsection \<open>Room codes\<close>

lemma generateRoomCode_length: "length (generateRoomCode rnd) = min 6 (length rnd - 2)"
  by (simp add: generateRoomCode_def toUpperCase_def substring_def)

text \<open>The digits of a rendering become upper-case letters and digits, six of them at most.\<close>

lemma upperChar_digit:
  "c \<in> set ''0123456789abcdefghijklmnopqrstuvwxyz''
   \<Longrightarrow> upperChar c \<in> set ''0123456789ABCDEFGHIJKLMNOPQRSTUVWXYZ''"
  by (auto simp: upperChar_def)

lemma generateRoomCode_digits:
  assumes "set ds \<subseteq> set ''0123456789abcdefghijklmnopqrstuvwxyz''"
  shows "set (generateRoomCode (''0.'' @ ds)) \<subseteq> set ''0123456789ABCDEFGHIJKLMNOPQRSTUVWXYZ''"
    and "length (generateRoomCode (''0.'' @ ds)) = min 6 (length ds)"
proof -
  have "generateRoomCode (''0.'' @ ds) = map upperChar (take 6 ds)"
    by (simp add: generateRoomCode_def toUpperCase_def substring_def)
  moreover have "set (take 6 ds) \<subseteq> set ''0123456789abcdefghijklmnopqrstuvwxyz''"
    using assms set_take_subset[of 6 ds] by blast
  ultimately show "set (generateRoomCode (''0.'' @ ds)) \<subseteq> set ''0123456789ABCDEFGHIJKLMNOPQRSTUVWXYZ''"
    using upperChar_digit by (auto simp del: set_simps list.set)
  show "length (generateRoomCode (''0.'' @ ds)) = min 6 (length ds)"
    by (simp add: generateRoomCode_length)
qed

text \<open>
  C8 asks for six characters whatever the random number. The code is cut out of the
  rendering from its third character on, so a rendering with fewer than six digits
  after the point gives a shorter code: one character for 0.5, none for 0.
\<close>

theorem generateRoomCode_short:
  "generateRoomCode ''0.i'' = ''I'' \<and> length (generateRoomCode ''0.i'') = 1
   \<and> generateRoomCode ''0'' = []"
  by (simp add: code_defs)

subsection \<open>Capacity\<close>

lemma capacityOk_iff: "capacityOk rooms \<longleftrightarrow> (\<forall>(k, room)\<in>set rooms. length (players room) \<le> 5)"
  by (simp add: capacityOk_def list_all_iff)

lemma capacityOk_update:
  "capacityOk rooms \<Longrightarrow> length (players room) \<le> 5 \<Longrightarrow> capacityOk (AList.update k room rooms)"
  by (induction rooms) (auto simp: capacityOk_def)

lemma capacityOk_lookup:
  "capacityOk rooms \<Longrightarrow> map_of rooms k = Some room \<Longrightarrow> length (players room) \<le> 5"
  by (auto simp: capacityOk_iff dest!: map_of_SomeD)

lemma length_splice1: "length (splice1 i xs) \<le> length xs"
  by (simp add: splice1_def)

lemma capacityOk_disconnectScan:
  "capacityOk rooms \<Longrightarrow> capacityOk (fst (disconnectScan c rooms))"
proof (induction rooms)
  case Nil
  then show ?case by simp
next
  case (Cons kr rooms)
  obtain k room where kr: "kr = (k, room)" by (cases kr)
  from Cons.prems kr have room: "length (players room) \<le> 5" and rest: "capacityOk rooms"
    by (simp_all add: capacityOk_def)
  have "length (splice1 i (players room)) \<le> 5" for i
    using length_splice1[of i "players room"] room by linarith
  with Cons.IH[OF rest] room show ?case
    by (simp add: kr capacityOk_def Let_def split_beta split: option.splits)
qed

lemma handle_capacity:
  assumes "capacityOk (gameRooms s)"
  shows "capacityOk (gameRooms (fst (handle s c e)))"
proof (cases e)
  case (CreateRoom rnd n)
  then show ?thesis using assms by (simp add: createRoom_def Let_def capacityOk_update)
next
  case (JoinRoom k n)
  then show ?thesis using assms
    by (auto simp: joinRoom_def Let_def split: option.splits intro!: capacityOk_update)
next
  case (PlayerReady k)
  then show ?thesis using assms
    by (auto simp: playerReady_def Let_def split: option.splits
        intro!: capacityOk_update dest: capacityOk_lookup)
next
  case (GameStateUpdate k g)
  then show ?thesis using assms
    by (auto simp: gameStateUpdate_def split: option.splits
        intro!: capacityOk_update dest: capacityOk_lookup)
next
  case (PlayerAction k a d)
  then show ?thesis using assms by (simp add: playerAction_def)
next
  case Disconnect
  then show ?thesis using capacityOk_disconnectScan[OF assms, of c]
    by (simp add: rooms_disconnect)
qed

lemma run_capacity: "capacityOk (gameRooms s) \<Longrightarrow> capacityOk (gameRooms (fst (run s evs)))"
proof (induction evs arbitrary: s)
  case Nil
  then show ?case by simp
next
  case (Cons ce evs)
  obtain c e where ce: "ce = (c, e)" by (cases ce)
  from Cons.IH[OF handle_capacity[OF Cons.prems, of c e]] show ?case
    by (simp only: ce fst_run_Cons)
qed

text \<open>
  C5. Whatever events the server has handled since it started, every room of the registry
  has at most five players.
\<close>

theorem room_capacity:
  "(k, room) \<in> set (gameRooms (fst (run init evs))) \<Longrightarrow> length (players room) \<le> 5"
proof -
  assume a: "(k, room) \<in> set (gameRooms (fst (run init evs)))"
  have "capacityOk (gameRooms (init :: 'a state))" by (simp add: init_def capacityOk_def)
  from run_capacity[OF this, of evs] a show ?thesis by (auto simp: capacityOk_iff)
qed

lemma crowd_rooms: "gameRooms (fst (run init crowdEvents)) = [(''4FZYO8'', crowdRoom)]"
  by (simp add: crowdEvents_def crowdRoom_def example_defs handler_defs Let_def code_example)

theorem room_capacity_witness:
  "(''4FZYO8'', crowdRoom) \<in> set (gameRooms (fst (run init crowdEvents)))
   \<and> length (players crowdRoom) \<le> 5 \<and> length crowdEvents = 7"
proof -
  have h: "(''4FZYO8'', crowdRoom) \<in> set (gameRooms (fst (run init crowdEvents)))"
    by (simp add: crowd_rooms)
  show ?thesis using h room_capacity [OF h] by (simp add: crowdEvents_def lobbyEvents_def)
qed

subsection \<open>Disconnect\<close>

lemma keys_disconnectScan: "fst ` set (fst (disconnectScan c rooms)) \<subseteq> fst ` set rooms"
proof (induction rooms)
  case Nil
  then show ?case by simp
next
  case (Cons kr rooms)
  obtain k room where kr: "kr = (k, room)" by (cases kr)
  from Cons.IH show ?case
    by (auto simp: kr Let_def split_beta split: option.splits)
qed

lemma distinct_disconnectScan:
  "distinct (map fst rooms) \<Longrightarrow> distinct (map fst (fst (disconnectScan c rooms)))"
proof (induction rooms)
  case Nil
  then show ?case by simp
next
  case (Cons kr rooms)
  obtain k room where kr: "kr = (k, room)" by (cases kr)
  from Cons.prems kr have "k \<notin> fst ` set rooms" "distinct (map fst rooms)" by auto
  with Cons.IH keys_disconnectScan[of c rooms] show ?case
    by (auto simp: kr Let_def split_beta split: option.splits)
qed

text \<open>What the scan leaves under one code.\<close>

lemma map_of_disconnectScan:
  "distinct (map fst rooms) \<Longrightarrow>
   map_of (fst (disconnectScan c rooms)) k =
     (case map_of rooms k of
        None \<Rightarrow> None
      | Some room \<Rightarrow>
          (case findIndex (\<lambda>p. pid p = c) (players room) of
             None \<Rightarrow> Some room
           | Some i \<Rightarrow>
               if splice1 i (players room) = [] then None
               else Some (room\<lparr>players := splice1 i (players room)\<rparr>)))"
proof (induction rooms)
  case Nil
  then show ?case by simp
next
  case (Cons kr rooms)
  obtain k' room where kr: "kr = (k', room)" by (cases kr)
  from Cons.prems kr have notin: "k' \<notin> fst ` set rooms" and d: "distinct (map fst rooms)" by auto
  from notin keys_disconnectScan[of c rooms]
  have gone: "map_of (fst (disconnectScan c rooms)) k' = None"
    by (auto simp: map_of_eq_None_iff)
  show ?case
  proof (cases "k = k'")
    case True
    with gone show ?thesis
      by (simp add: kr Let_def split_beta split: option.splits)
  next
    case False
    with Cons.IH[OF d] show ?thesis
      by (simp add: kr Let_def split_beta split: option.splits)
  qed
qed

lemma distinct_handle:
  assumes "distinct (map fst (gameRooms s))"
  shows "distinct (map fst (gameRooms (fst (handle s c e))))"
proof (cases e)
  case Disconnect
  then show ?thesis using distinct_disconnectScan[OF assms, of c] by (simp add: rooms_disconnect)
qed (use assms in \<open>auto simp: handler_defs Let_def distinct_update split: option.splits\<close>)

lemma distinct_run:
  "distinct (map fst (gameRooms s)) \<Longrightarrow> distinct (map fst (gameRooms (fst (run s evs))))"
proof (induction evs arbitrary: s)
  case Nil
  then show ?case by simp
next
  case (Cons ce evs)
  obtain c e where ce: "ce = (c, e)" by (cases ce)
  from Cons.IH[OF distinct_handle[OF Cons.prems, of c e]] show ?case
    by (simp only: ce fst_run_Cons)
qed

lemma distinct_reachable: "distinct (map fst (gameRooms (fst (run init evs))))"
  by (rule distinct_run) (simp add: init_def)

lemma nth_splice1:
  assumes "p < length xs" "Suc j < length xs"
  shows "splice1 p xs ! j = (if j < p then xs ! j else xs ! Suc j)"
  using assms by (auto simp: splice1_def nth_append min_def)

lemma length_splice1_eq: "p < length xs \<Longrightarrow> length (splice1 p xs) = length xs - 1"
  by (auto simp: splice1_def)

lemma disconnectScan_out:
  "snd (disconnectScan c rooms) =
     concat (map (\<lambda>(k, room).
        case findIndex (\<lambda>p. pid p = c) (players room) of
          None \<Rightarrow> []
        | Some i \<Rightarrow>
            if splice1 i (players room) = [] then []
            else [ToRoom k (PlayersUpdate (splice1 i (players room))),
                  ToRoom k (PlayerDisconnected c)]) rooms)"
  by (induction rooms) (auto simp: Let_def split_beta split: option.splits)

lemma disconnectScan_stranger:
  "\<forall>(k, room)\<in>set rooms. \<forall>p\<in>set (players room). pid p \<noteq> c \<Longrightarrow> disconnectScan c rooms = (rooms, [])"
proof (induction rooms)
  case Nil
  then show ?case by simp
next
  case (Cons kr rooms)
  obtain k room where kr: "kr = (k, room)" by (cases kr)
  from Cons.prems kr have "findIndex (\<lambda>p. pid p = c) (players room) = None"
    by (simp add: findIndex_None)
  moreover from Cons have "disconnectScan c rooms = (rooms, [])" by simp
  ultimately show ?case by (simp add: kr)
qed

lemma splice1_removes:
  assumes "findIndex (\<lambda>p. pid p = c) ps = Some i" "distinct (map pid ps)"
  shows "\<forall>p\<in>set (splice1 i ps). pid p \<noteq> c"
proof
  fix p assume "p \<in> set (splice1 i ps)"
  from findIndex_Some[OF assms(1)] have i: "i < length ps" "pid (ps ! i) = c" by auto
  from \<open>p \<in> set (splice1 i ps)\<close>
  have "p \<in> set (take i ps) \<or> p \<in> set (drop (Suc i) ps)"
    by (simp add: splice1_def)
  then have "\<exists>j<length ps. j \<noteq> i \<and> p = ps ! j"
  proof
    assume "p \<in> set (take i ps)"
    then obtain j where "j < i" "j < length ps" "p = ps ! j"
      by (auto simp: in_set_conv_nth)
    then show ?thesis by auto
  next
    assume "p \<in> set (drop (Suc i) ps)"
    then obtain j where "j < length ps - Suc i" "p = drop (Suc i) ps ! j"
      by (auto simp: in_set_conv_nth)
    then have "Suc i + j < length ps" "p = ps ! (Suc i + j)"
      by simp_all
    then show ?thesis by (intro exI[of _ "Suc i + j"]) auto
  qed
  then obtain j where j: "j < length ps" "j \<noteq> i" "p = ps ! j" by blast
  with assms(2) i show "pid p \<noteq> c"
    by (metis distinct_conv_nth length_map nth_map)
qed

lemma twice_rooms: "gameRooms (fst (run init twiceEvents)) = [(''4FZYO8'', twiceRoom)]"
  by (simp add: twiceRoom_def example_defs handler_defs Let_def code_example)

text \<open>
  C4 says that the disconnecting player is removed from each room it is in, and that a
  room emptied by this is deleted. \<^verbatim>\<open>findIndex\<close> and \<^verbatim>\<open>splice(playerIndex, 1)\<close> take out one
  entry, the first with the socket's id (\<open>map_of_disconnectScan\<close>); where a socket has
  one entry in a room that is the player (\<open>splice1_removes\<close>). Alice has joined the
  room Alice created, so the socket is in it twice: after the disconnect the room is
  still in the registry and the socket is still one of its players.
\<close>

theorem disconnect_leaves_second_entry:
  "map_of (gameRooms (fst (run init twiceEvents))) ''4FZYO8'' = Some twiceRoom
   \<and> map_of (gameRooms (fst (handle (fst (run init twiceEvents)) ''a'' Disconnect))) ''4FZYO8''
       = Some (twiceRoom\<lparr>players := [alice]\<rparr>)
   \<and> pid alice = ''a''
   \<and> snd (handle (fst (run init twiceEvents)) ''a'' Disconnect)
       = [ToRoom ''4FZYO8'' (PlayersUpdate [alice]), ToRoom ''4FZYO8'' (PlayerDisconnected ''a'')]"
  by (simp add: twice_rooms twiceRoom_def alice_def disconnect_def splice1_def Let_def)

subsection \<open>The ready flag\<close>

lemma nth_set_ready:
  assumes "i < length ps"
  shows "pid (ps[p := (ps ! p)\<lparr>ready := True\<rparr>] ! i) = pid (ps ! i)"
    and "ready (ps ! i) \<Longrightarrow> ready (ps[p := (ps ! p)\<lparr>ready := True\<rparr>] ! i)"
  using assms by (cases "p = i"; simp)+

lemma track_step:
  assumes d: "distinct (map fst (gameRooms s))"
    and room: "map_of (gameRooms s) k = Some room"
    and i: "i < length (players room)"
    and t: "track s c e k i = Some j"
  shows "\<exists>room'. map_of (gameRooms (fst (handle s c e))) k = Some room'
           \<and> j < length (players room')
           \<and> pid (players room' ! j) = pid (players room ! i)
           \<and> (ready (players room ! i) \<longrightarrow> ready (players room' ! j))"
proof (cases e)
  case (CreateRoom rnd n)
  with t have "generateRoomCode rnd \<noteq> k" "j = i" by (auto split: if_splits)
  with CreateRoom room i show ?thesis
    by (simp add: createRoom_def Let_def update_conv')
next
  case (JoinRoom k' n)
  with t have "j = i" by simp
  with JoinRoom room i show ?thesis
    by (auto simp: joinRoom_def Let_def update_conv' nth_append split: option.splits)
next
  case (PlayerReady k')
  with t have "j = i" by simp
  with PlayerReady room i show ?thesis
    by (auto simp: playerReady_def Let_def update_conv' nth_set_ready split: option.splits)
next
  case (GameStateUpdate k' g)
  with t have "j = i" by simp
  with GameStateUpdate room i show ?thesis
    by (auto simp: gameStateUpdate_def update_conv' split: option.splits)
next
  case (PlayerAction k' a b)
  with t have "j = i" by simp
  with PlayerAction room i show ?thesis by (simp add: playerAction_def)
next
  case Disconnect
  have rooms': "map_of (gameRooms (fst (handle s c e))) k =
      (case findIndex (\<lambda>p. pid p = c) (players room) of
         None \<Rightarrow> Some room
       | Some p \<Rightarrow> if splice1 p (players room) = [] then None
                   else Some (room\<lparr>players := splice1 p (players room)\<rparr>))"
    using Disconnect map_of_disconnectScan[OF d, of c k] room by (simp add: rooms_disconnect)
  show ?thesis
  proof (cases "findIndex (\<lambda>p. pid p = c) (players room)")
    case None
    with t Disconnect room have "j = i" by simp
    with rooms' None i show ?thesis by simp
  next
    case (Some p)
    from findIndex_Some[OF Some] have p: "p < length (players room)" by simp
    from t Disconnect room Some have ne: "i \<noteq> p" and j: "j = (if p < i then i - 1 else i)"
      by (auto split: if_splits)
    from p i ne have len: "length (splice1 p (players room)) = length (players room) - 1"
      "2 \<le> length (players room)"
      by (auto simp: length_splice1_eq)
    then have nonempty: "splice1 p (players room) \<noteq> []" by auto
    have jlt: "Suc j < length (players room)"
      using j p i ne by auto
    have "splice1 p (players room) ! j = players room ! i"
      using nth_splice1[OF p jlt] j ne by auto
    with rooms' Some nonempty len jlt show ?thesis by simp
  qed
qed

lemma track_None:
  assumes "map_of (gameRooms s) k = Some room" "i < length (players room)" "track s c e k i = None"
  shows "(\<exists>rnd n. e = CreateRoom rnd n \<and> generateRoomCode rnd = k)
         \<or> (e = Disconnect \<and> pid (players room ! i) = c)"
proof (cases e)
  case Disconnect
  with assms obtain p where "findIndex (\<lambda>p. pid p = c) (players room) = Some p" "i = p"
    by (auto split: option.splits if_splits)
  with findIndex_Some[OF this(1)] Disconnect show ?thesis by simp
qed (use assms in \<open>auto split: if_splits\<close>)

lemma track_run:
  assumes "distinct (map fst (gameRooms s))"
    and "map_of (gameRooms s) k = Some room"
    and "i < length (players room)"
    and "ready (players room ! i)"
    and "trackRun s evs k i = Some j"
  shows "\<exists>room'. map_of (gameRooms (fst (run s evs))) k = Some room'
           \<and> j < length (players room')
           \<and> pid (players room' ! j) = pid (players room ! i)
           \<and> ready (players room' ! j)"
  using assms
proof (induction evs arbitrary: s room i)
  case Nil
  then show ?case by simp
next
  case (Cons ce evs)
  obtain c e where ce: "ce = (c, e)" by (cases ce)
  from Cons.prems(5) ce obtain m where m: "track s c e k i = Some m"
    and rest: "trackRun (fst (handle s c e)) evs k m = Some j"
    by (auto split: option.splits)
  from track_step[OF Cons.prems(1-3) m] Cons.prems(4)
  obtain room1 where r1: "map_of (gameRooms (fst (handle s c e))) k = Some room1"
    "m < length (players room1)" "pid (players room1 ! m) = pid (players room ! i)"
    "ready (players room1 ! m)"
    by auto
  from Cons.IH[OF distinct_handle[OF Cons.prems(1)] r1(1,2,4) rest] r1(3)
  show ?case by (simp only: ce fst_run_Cons)
qed

lemma run_append: "fst (run s (pre @ evs)) = fst (run (fst (run s pre)) evs)"
  by (induction pre arbitrary: s) (auto simp: split_beta)

text \<open>
  C10. Take a player object that is ready in a state the server can reach, and any
  events after it. As long as the object is in the registry (\<open>trackRun\<close> follows it to an
  index \<open>j\<close> of the same room) it is ready, and it carries the same id.
\<close>

theorem ready_never_reset:
  assumes "map_of (gameRooms (fst (run init pre))) k = Some room"
    and "i < length (players room)"
    and "ready (players room ! i)"
    and "trackRun (fst (run init pre)) evs k i = Some j"
  shows "\<exists>room'. map_of (gameRooms (fst (run init (pre @ evs)))) k = Some room'
           \<and> j < length (players room')
           \<and> pid (players room' ! j) = pid (players room ! i)
           \<and> ready (players room' ! j)"
  using track_run[OF distinct_reachable assms] by (simp only: run_append)

lemma ready_rooms:
  "gameRooms (fst (run init readyEvents)) = [(''4FZYO8'', lobbyRoom\<lparr>players := [alice, bob\<lparr>ready := True\<rparr>]\<rparr>)]"
  by (simp add: readyEvents_def example_defs handler_defs Let_def code_example)

lemma later_rooms:
  "gameRooms (fst (run init (readyEvents @ laterEvents))) =
     [(''4FZYO8'', startedRoom\<lparr>players := [bob\<lparr>ready := True\<rparr>, \<lparr>pid = ''c'', name = ''Carol'', ready = True\<rparr>]\<rparr>)]"
  by (simp add: readyEvents_def laterEvents_def example_defs handler_defs Let_def code_example splice1_def)

lemma later_track: "trackRun (fst (run init readyEvents)) laterEvents ''4FZYO8'' 1 = Some 0"
  by (simp add: readyEvents_def laterEvents_def example_defs handler_defs Let_def code_example splice1_def)

theorem ready_never_reset_witness:
  "map_of (gameRooms (fst (run init readyEvents))) ''4FZYO8''
     = Some (lobbyRoom\<lparr>players := [alice, bob\<lparr>ready := True\<rparr>]\<rparr>)
   \<and> ready ([alice, bob\<lparr>ready := True\<rparr>] ! 1)
   \<and> trackRun (fst (run init readyEvents)) laterEvents ''4FZYO8'' 1 = Some 0
   \<and> pid (players (the (map_of (gameRooms (fst (run init (readyEvents @ laterEvents)))) ''4FZYO8'')) ! 0) = ''b''
   \<and> ready (players (the (map_of (gameRooms (fst (run init (readyEvents @ laterEvents)))) ''4FZYO8'')) ! 0)"
proof -
  let ?room = "lobbyRoom\<lparr>players := [alice, bob\<lparr>ready := True\<rparr>]\<rparr>"
  have h: "map_of (gameRooms (fst (run init readyEvents))) ''4FZYO8'' = Some ?room"
    "1 < length (players ?room)" "ready (players ?room ! 1)"
    "trackRun (fst (run init readyEvents)) laterEvents ''4FZYO8'' 1 = Some 0"
    by (simp_all add: ready_rooms later_track [simplified])
  from ready_never_reset [OF h] h show ?thesis
    by (auto simp: bob_def)
qed

end
